theory Spec2Isabelle
  imports Main "HOL-Library.AList" "HOL-Library.Sublist"
begin

section \<open>Values, errors and the world the platform helpers run in\<close>

text \<open>
  JavaScript values as far as \<open>src/platform/index.ts\<close> handles them: the bodies, filters
  and rows are plain objects. An object is its list of own properties in the order in which
  JavaScript enumerates them (array indices ascending, then the other names in order of
  creation); an array is an object whose flag is \<open>True\<close> and whose keys are its indices.
  A missing property reads as \<open>JUndefined\<close>.
\<close>

datatype jsval =
    JUndefined
  | JNull
  | JBool bool
  | JNum int
  | JStr string
  | JObj bool "(string \<times> jsval) list"

type_synonym fields = "(string \<times> jsval) list"

definition get_prop :: "fields \<Rightarrow> string \<Rightarrow> jsval" where
  "get_prop obj k = (case map_of obj k of None \<Rightarrow> JUndefined | Some v \<Rightarrow> v)"

definition has_key :: "fields \<Rightarrow> string \<Rightarrow> bool" where
  "has_key obj k = (map_of obj k \<noteq> None)"

text \<open>A rejected promise or a thrown exception carries a JavaScript \<open>Error\<close>.\<close>

datatype err = Error string

datatype scope = Auth | Resin

datatype req = Root | Req nat

type_synonym tx = nat

text \<open>
  A \<open>PinejsClient\<close> handle: the model it talks to and the passthrough that
  \<open>api.clone\<close> bound to it.
\<close>

record handle =
  h_scope :: scope
  h_req :: "req option"
  h_tx :: "tx option"

definition authApi :: handle where
  "authApi = \<lparr>h_scope = Auth, h_req = None, h_tx = None\<rparr>"

definition resinApi :: handle where
  "resinApi = \<lparr>h_scope = Resin, h_req = None, h_tx = None\<rparr>"

definition clone :: "handle \<Rightarrow> req \<Rightarrow> tx option \<Rightarrow> handle" where
  "clone api r t = api\<lparr>h_req := Some r, h_tx := t\<rparr>"

datatype select = SelectStr string | SelectList "string list"

text \<open>
  Every call that leaves the module is recorded, in the order in which it is issued:
  the four verbs of the client, the affected-ids resolver, the exception sink and the
  transaction boundary. A delete is recorded with the error it was rejected with, if any.
\<close>

datatype event =
    EGet string fields select
  | EPost string fields
  | EPatch string jsval fields
  | EDelete "string option" string "jsval list" "err option"
  | EResolve
  | ECapture err string req
  | EBegin
  | ECommit
  | ERollback

text \<open>
  The store behind the client is not part of the module: its verbs are parameters.
  A read returns rows or fails; a write returns its result or fails, and the new store.
\<close>

record 's backend =
  be_get :: "handle \<Rightarrow> string \<Rightarrow> fields \<Rightarrow> select \<Rightarrow> 's \<Rightarrow> err + fields list"
  be_post :: "handle \<Rightarrow> string \<Rightarrow> fields \<Rightarrow> 's \<Rightarrow> (err + fields) \<times> 's"
  be_patch :: "handle \<Rightarrow> string \<Rightarrow> jsval \<Rightarrow> fields \<Rightarrow> 's \<Rightarrow> (err + unit) \<times> 's"
  be_delete :: "handle \<Rightarrow> string option \<Rightarrow> string \<Rightarrow> jsval list \<Rightarrow> 's \<Rightarrow> (err + unit) \<times> 's"

text \<open>
  The world: the record of calls, the store, and the JavaScript heap of the objects that
  callers pass by reference (\<open>heap_next\<close> is the first address not yet allocated). A cell
  holds an object together with everything nested in it.
\<close>

record 's world =
  log :: "event list"
  store :: 's
  heap :: "nat \<Rightarrow> fields"
  heap_next :: nat

definition emit :: "event \<Rightarrow> 's world \<Rightarrow> 's world" where
  "emit e w = w\<lparr>log := log w @ [e]\<rparr>"

type_synonym ('a, 's) promise = "'s world \<Rightarrow> (err + 'a) \<times> 's world"

subsection \<open>The client's verbs, recorded\<close>

definition api_get :: "'s backend \<Rightarrow> handle \<Rightarrow> string \<Rightarrow> fields \<Rightarrow> select \<Rightarrow> (fields list, 's) promise" where
  "api_get be api resource flt sel w =
     (be_get be api resource flt sel (store w), emit (EGet resource flt sel) w)"

definition api_post :: "'s backend \<Rightarrow> handle \<Rightarrow> string \<Rightarrow> fields \<Rightarrow> (fields, 's) promise" where
  "api_post be api resource body w =
     (case be_post be api resource body (store w) of
        (r, s') \<Rightarrow> (r, (emit (EPost resource body) w)\<lparr>store := s'\<rparr>))"

definition api_patch :: "'s backend \<Rightarrow> handle \<Rightarrow> string \<Rightarrow> jsval \<Rightarrow> fields \<Rightarrow> (unit, 's) promise" where
  "api_patch be api resource i body w =
     (case be_patch be api resource i body (store w) of
        (r, s') \<Rightarrow> (r, (emit (EPatch resource i body) w)\<lparr>store := s'\<rparr>))"

definition failure :: "err + 'a \<Rightarrow> err option" where
  "failure r = (case r of Inl e \<Rightarrow> Some e | Inr _ \<Rightarrow> None)"

definition api_delete :: "'s backend \<Rightarrow> handle \<Rightarrow> string option \<Rightarrow> string \<Rightarrow> jsval list \<Rightarrow> (unit, 's) promise" where
  "api_delete be api resource fld ids w =
     (case be_delete be api resource fld ids (store w) of
        (r, s') \<Rightarrow> (r, (emit (EDelete resource fld ids (failure r)) w)\<lparr>store := s'\<rparr>))"

subsection \<open>Promise chaining (bluebird)\<close>

definition then_p :: "('a, 's) promise \<Rightarrow> ('a \<Rightarrow> ('b, 's) promise) \<Rightarrow> ('b, 's) promise" where
  "then_p p k w = (case p w of (Inl e, w') \<Rightarrow> (Inl e, w') | (Inr v, w') \<Rightarrow> k v w')"

definition resolve_p :: "'a \<Rightarrow> ('a, 's) promise" where
  "resolve_p v w = (Inr v, w)"

definition reject_p :: "err \<Rightarrow> ('a, 's) promise" where
  "reject_p e w = (Inl e, w)"

definition return_p :: "('a, 's) promise \<Rightarrow> 'b \<Rightarrow> ('b, 's) promise" where
  "return_p p v = then_p p (\<lambda>_. resolve_p v)"

definition tapCatch :: "('a, 's) promise \<Rightarrow> (err \<Rightarrow> 's world \<Rightarrow> 's world) \<Rightarrow> ('a, 's) promise" where
  "tapCatch p handler w =
     (case p w of (Inl e, w') \<Rightarrow> (Inl e, handler e w') | (Inr v, w') \<Rightarrow> (Inr v, w'))"

fun mapSeries :: "'a list \<Rightarrow> ('a \<Rightarrow> ('b, 's) promise) \<Rightarrow> ('b list, 's) promise" where
  "mapSeries [] f w = (Inr [], w)"
| "mapSeries (x # xs) f w =
     (case f x w of
        (Inl e, w') \<Rightarrow> (Inl e, w')
      | (Inr y, w') \<Rightarrow>
          (case mapSeries xs f w' of
             (Inl e, w'') \<Rightarrow> (Inl e, w'')
           | (Inr ys, w'') \<Rightarrow> (Inr (y # ys), w'')))"

subsection \<open>Properties of objects\<close>

text \<open>
  The assignment \<open>object[k] = v\<close>. An existing property keeps its place; a new one goes
  where JavaScript enumerates it: an array index (a canonical numeral below \<open>2^32 - 1\<close>)
  among the indices, in ascending order, any other name at the end.
\<close>

definition digit_of :: "char \<Rightarrow> nat option" where
  "digit_of c = map_of (zip ''0123456789'' [0, 1, 2, 3, 4, 5, 6, 7, 8, 9]) c"

definition number_of :: "string \<Rightarrow> nat" where
  "number_of s = foldl (\<lambda>n c. 10 * n + (case digit_of c of None \<Rightarrow> 0 | Some d \<Rightarrow> d)) 0 s"

definition index_of :: "string \<Rightarrow> nat option" where
  "index_of k =
     (if k \<noteq> [] \<and> list_all (\<lambda>c. digit_of c \<noteq> None) k \<and> (k = ''0'' \<or> hd k \<noteq> CHR ''0'')
         \<and> number_of k < 4294967295
      then Some (number_of k) else None)"

fun insert_index :: "nat \<Rightarrow> string \<Rightarrow> jsval \<Rightarrow> fields \<Rightarrow> fields" where
  "insert_index i k v [] = [(k, v)]"
| "insert_index i k v ((k', v') # rest) =
     (case index_of k' of
        Some j \<Rightarrow> if j < i then (k', v') # insert_index i k v rest else (k, v) # (k', v') # rest
      | None \<Rightarrow> (k, v) # (k', v') # rest)"

definition put :: "string \<Rightarrow> jsval \<Rightarrow> fields \<Rightarrow> fields" where
  "put k v obj =
     (if has_key obj k then AList.update k v obj
      else case index_of k of Some i \<Rightarrow> insert_index i k v obj | None \<Rightarrow> obj @ [(k, v)])"

subsection \<open>lodash: assign, cloneDeep, merge\<close>

text \<open>
  \<open>_.assign({}, a, b)\<close>: the properties of \<open>a\<close>, then those of \<open>b\<close>, a later
  value replacing an earlier one under the same key.
\<close>

definition assign :: "fields \<Rightarrow> fields \<Rightarrow> fields" where
  "assign target source = fold (\<lambda>(k, v). put k v) source target"

text \<open>
  An object that lodash takes for array-like has a \<open>length\<close> that is a whole number from
  0 to \<open>2^53 - 1\<close>; \<open>copyArray\<close> makes of it the array of that length of its properties
  \<open>0\<close>, \<open>1\<close>, and so on (JavaScript builds no array of length \<open>2^32\<close> or more; such
  lengths are outside these values).
\<close>

fun show_nat :: "nat \<Rightarrow> string" where
  "show_nat n =
     (if n < 10 then [''0123456789'' ! n]
      else show_nat (n div 10) @ [''0123456789'' ! (n mod 10)])"

declare show_nat.simps [simp del]

definition array_like :: "fields \<Rightarrow> bool" where
  "array_like obj =
     (case map_of obj ''length'' of
        Some (JNum n) \<Rightarrow> 0 \<le> n \<and> n \<le> 9007199254740991
      | _ \<Rightarrow> False)"

definition copyArray :: "fields \<Rightarrow> fields" where
  "copyArray obj =
     (case map_of obj ''length'' of
        Some (JNum n) \<Rightarrow> map (\<lambda>i. (show_nat i, get_prop obj (show_nat i))) [0..<nat n]
      | _ \<Rightarrow> [])"

text \<open>
  \<open>_.merge(object, source)\<close> walks the source's properties. A property that holds a plain
  object is merged recursively into the destination's value when that is an object or an
  array, and into a new empty object otherwise. A property that holds an array is merged
  recursively into the destination's value when that is an array, into a copy of it when
  it is an array-like object, and into a new empty array otherwise. An \<open>undefined\<close>
  property is skipped when the destination has the key; any other value is assigned.
  The values are those of JSON and \<open>undefined\<close>; what an object inherits from its
  prototype, and the \<open>length\<close> of an array as a property, are not part of them.
\<close>

fun merge :: "fields \<Rightarrow> fields \<Rightarrow> fields" where
  "merge object [] = object"
| "merge object ((k, JObj arr src) # rest) =
     merge (put k
              (case map_of object k of
                 Some (JObj oarr ofs) \<Rightarrow>
                   if arr \<and> \<not> oarr
                   then JObj True (merge (if array_like ofs then copyArray ofs else []) src)
                   else JObj oarr (merge ofs src)
               | _ \<Rightarrow> JObj arr (merge [] src))
              object) rest"
| "merge object ((k, JUndefined) # rest) =
     merge (if has_key object k then object else put k JUndefined object) rest"
| "merge object ((k, v) # rest) = merge (put k v object) rest"

text \<open>
  \<open>_.cloneDeep(value)\<close> allocates a copy that shares nothing with the original: a new
  cell with the same contents. \<open>_.merge(object, source)\<close> writes into the object its first
  argument refers to, and reads the second.
\<close>

definition cloneDeep :: "nat \<Rightarrow> 's world \<Rightarrow> nat \<times> 's world" where
  "cloneDeep a w =
     (heap_next w, w\<lparr>heap := (heap w)(heap_next w := heap w a), heap_next := Suc (heap_next w)\<rparr>)"

definition merge_at :: "nat \<Rightarrow> nat \<Rightarrow> 's world \<Rightarrow> 's world" where
  "merge_at a b w = w\<lparr>heap := (heap w)(a := merge (heap w a) (heap w b))\<rparr>"

section \<open>The upsert helpers\<close>

text \<open>
  \<open>_getOrInsertId(api, resource, body, tx)\<close>: look the body up, insert it when no row
  matches, and return the first row otherwise.
\<close>

definition priv_getOrInsertId ::
  "'s backend \<Rightarrow> handle \<Rightarrow> string \<Rightarrow> fields \<Rightarrow> tx option \<Rightarrow> (fields, 's) promise" where
  "priv_getOrInsertId be api resource body t =
     (let apiTx = clone api Root t in
      then_p (api_get be apiTx resource body (SelectStr ''id''))
        (\<lambda>results.
           if length results = 0 then
             then_p (api_post be apiTx resource body)
               (\<lambda>idObj. resolve_p (assign (assign [] idObj) body))
           else resolve_p (hd results)))"

text \<open>
  \<open>_updateOrInsert(api, resource, filter, updateFields, tx)\<close>. The filter and the update
  fields are the caller's objects, passed by reference; \<open>JSON.stringify\<close> is a parameter.
\<close>

definition not_unique_message :: "(fields \<Rightarrow> string) \<Rightarrow> string \<Rightarrow> fields \<Rightarrow> string" where
  "not_unique_message JSON_stringify resource flt =
     ''updateOrInsert filter not unique for '' @ [CHR 0x27] @ resource @ [CHR 0x27] @ '': ''
       @ [CHR 0x27] @ JSON_stringify flt @ [CHR 0x27]"

definition priv_updateOrInsert ::
  "(fields \<Rightarrow> string) \<Rightarrow> 's backend \<Rightarrow> handle \<Rightarrow> string \<Rightarrow> nat \<Rightarrow> nat \<Rightarrow> tx option
     \<Rightarrow> (fields, 's) promise" where
  "priv_updateOrInsert JSON_stringify be api resource filter' updateFields t =
     (let apiTx = clone api Root t in
      then_p (\<lambda>w. api_get be apiTx resource (heap w filter') (SelectList [''id'']) w)
        (\<lambda>results.
           if length results = 0 then
             (\<lambda>w. case cloneDeep filter' w of
                     (body, w1) \<Rightarrow>
                       (let w2 = merge_at body updateFields w1
                        in api_post be apiTx resource (heap w2 body) w2))
           else if length results > 1 then
             (\<lambda>w. reject_p (Error (not_unique_message JSON_stringify resource (heap w filter'))) w)
           else
             (\<lambda>w. return_p
                     (api_patch be apiTx resource (get_prop (hd results) ''id'') (heap w updateFields))
                     (hd results) w)))"

definition getOrInsertId :: "'s backend \<Rightarrow> string \<Rightarrow> fields \<Rightarrow> tx option \<Rightarrow> (fields, 's) promise" where
  "getOrInsertId be resource body t = priv_getOrInsertId be authApi resource body t"

definition getOrInsertModelId :: "'s backend \<Rightarrow> string \<Rightarrow> fields \<Rightarrow> tx option \<Rightarrow> (fields, 's) promise" where
  "getOrInsertModelId be resource body t = priv_getOrInsertId be resinApi resource body t"

definition updateOrInsert ::
  "(fields \<Rightarrow> string) \<Rightarrow> 's backend \<Rightarrow> string \<Rightarrow> nat \<Rightarrow> nat \<Rightarrow> tx option \<Rightarrow> (fields, 's) promise" where
  "updateOrInsert JSON_stringify be resource filter' updateFields t =
     priv_updateOrInsert JSON_stringify be authApi resource filter' updateFields t"

definition updateOrInsertModel ::
  "(fields \<Rightarrow> string) \<Rightarrow> 's backend \<Rightarrow> string \<Rightarrow> nat \<Rightarrow> nat \<Rightarrow> tx option \<Rightarrow> (fields, 's) promise" where
  "updateOrInsertModel JSON_stringify be resource filter' updateFields t =
     priv_updateOrInsert JSON_stringify be resinApi resource filter' updateFields t"

section \<open>Transactions\<close>

text \<open>
  \<open>wrapInTransaction(fn)\<close> returns a function that hands \<open>fn\<close>, applied to its own
  \<open>this\<close> and to the transaction put in front of its arguments, to \<open>db.transaction\<close>,
  which is a parameter here. \<open>runInTransaction\<close> calls that function plainly, so its
  \<open>this\<close> is \<open>undefined\<close>.
\<close>

definition wrapInTransaction ::
  "((tx \<Rightarrow> ('a, 's) promise) \<Rightarrow> ('a, 's) promise) \<Rightarrow> (jsval \<Rightarrow> tx \<Rightarrow> 'x \<Rightarrow> ('a, 's) promise)
     \<Rightarrow> jsval \<Rightarrow> 'x \<Rightarrow> ('a, 's) promise" where
  "wrapInTransaction db_transaction fn = (\<lambda>this args. db_transaction (\<lambda>t. fn this t args))"

definition runInTransaction ::
  "((tx \<Rightarrow> ('a, 's) promise) \<Rightarrow> ('a, 's) promise) \<Rightarrow> (jsval \<Rightarrow> tx \<Rightarrow> 'x \<Rightarrow> ('a, 's) promise)
     \<Rightarrow> 'x \<Rightarrow> ('a, 's) promise" where
  "runInTransaction db_transaction fn args =
     (let wrappedFn = wrapInTransaction db_transaction fn in wrappedFn JUndefined args)"

text \<open>
  Modelled from the spec: \<open>db.transaction\<close> of the database layer (pinejs), which is not
  among the sources. It opens a new transaction, runs the operation with it, commits
  when the operation resolves and returns its result, and rolls back when it rejects or
  throws, propagating the original error; after a rollback the store is the one the
  transaction started from.
\<close>

definition db_transaction :: "(tx \<Rightarrow> ('a, 's) promise) \<Rightarrow> ('a, 's) promise" where
  "db_transaction operation w =
     (let snapshot = store w;
          t = length (filter (\<lambda>e. e = EBegin) (log w))
      in case operation t (emit EBegin w) of
           (Inr v, w') \<Rightarrow> (Inr v, emit ECommit w')
         | (Inl e, w') \<Rightarrow> (Inl e, emit ERollback (w'\<lparr>store := snapshot\<rparr>)))"

section \<open>Hook helpers\<close>

record request =
  custom_affectedIds :: "(err + jsval list) option"

record hookargs =
  a_api :: handle
  a_req :: req
  a_request :: request

text \<open>
  \<open>getCurrentRequestAffectedIds(args)\<close>. \<open>sbvrUtils.getAffectedIds\<close> is a parameter; the
  promise it returns is kept as its outcome. The request object is the caller's, so the
  arguments come back with it.
\<close>

definition getCurrentRequestAffectedIds ::
  "(hookargs \<Rightarrow> 's \<Rightarrow> err + jsval list) \<Rightarrow> hookargs \<Rightarrow> 's world
     \<Rightarrow> (err + jsval list) \<times> hookargs \<times> 's world" where
  "getCurrentRequestAffectedIds getAffectedIds args w =
     (case custom_affectedIds (a_request args) of
        None \<Rightarrow>
          (let p = getAffectedIds args (store w)
           in (p, args\<lparr>a_request := (a_request args)\<lparr>custom_affectedIds := Some p\<rparr>\<rparr>,
               emit EResolve w))
      | Some p \<Rightarrow> (p, args, w))"

text \<open>
  Modelled from the spec: \<open>captureException\<close> of \<open>./errors\<close>, which is not among the
  sources. It hands the error, the message and the request to the exception sink and
  returns.
\<close>

definition captureException :: "err \<Rightarrow> string \<Rightarrow> req \<Rightarrow> 's world \<Rightarrow> 's world" where
  "captureException e msg r w = emit (ECapture e msg r) w"

type_synonym dependent = "string \<times> string \<times> string list option"

definition element :: "string list \<Rightarrow> nat \<Rightarrow> string option" where
  "element xs i = (if i < length xs then Some (xs ! i) else None)"

definition to_string :: "string option \<Rightarrow> string" where
  "to_string x = (case x of None \<Rightarrow> ''undefined'' | Some s \<Rightarrow> s)"

definition dependent_message :: "string \<Rightarrow> string \<Rightarrow> string" where
  "dependent_message dependent resource =
     ''Error deleting resource '' @ [CHR 0x27] @ dependent @ [CHR 0x27] @ '' before deleting ''
       @ [CHR 0x27] @ resource @ [CHR 0x27] @ '' ''"

text \<open>The function that \<open>Promise.mapSeries\<close> applies to each entry of \<open>dependents\<close>.\<close>

definition deleteDependent ::
  "'s backend \<Rightarrow> string \<Rightarrow> handle \<Rightarrow> req \<Rightarrow> jsval list \<Rightarrow> dependent \<Rightarrow> (unit, 's) promise" where
  "deleteDependent be resource api r resourceIds d =
     (case d of (dependent, resourceIdField, subDependent) \<Rightarrow>
        then_p
          (tapCatch (api_delete be api (Some dependent) resourceIdField resourceIds)
             (\<lambda>e. captureException e (dependent_message dependent resource) r))
          (\<lambda>_. case subDependent of
                  None \<Rightarrow> resolve_p ()
                | Some sd \<Rightarrow>
                    (let depResource = element sd 0; depFilter = element sd 1
                     in tapCatch
                          (return_p (api_delete be api depResource (to_string depFilter) resourceIds) ())
                          (\<lambda>e. captureException e (''Error deleting '' @ to_string depResource) r))))"

text \<open>
  \<open>addDeleteHookForDependents(resource, dependents)\<close> registers, for DELETE on
  \<open>resource\<close>, the PRERUN handler that this function returns.
\<close>

definition addDeleteHookForDependents ::
  "(hookargs \<Rightarrow> 's \<Rightarrow> err + jsval list) \<Rightarrow> 's backend \<Rightarrow> string \<Rightarrow> dependent list
     \<Rightarrow> hookargs \<Rightarrow> 's world \<Rightarrow> (err + unit) \<times> hookargs \<times> 's world" where
  "addDeleteHookForDependents getAffectedIds be resource dependents args w =
     (let api = a_api args; r = a_req args
      in case getCurrentRequestAffectedIds getAffectedIds args w of
           (p, args', w1) \<Rightarrow>
             (case then_p (Pair p)
                     (\<lambda>resourceIds.
                        if length resourceIds = 0 then resolve_p ()
                        else return_p
                               (mapSeries dependents (deleteDependent be resource api r resourceIds))
                               ()) w1 of
                (res, w2) \<Rightarrow> (res, args', w2)))"

section \<open>Vocabulary of the properties\<close>



fun is_write :: "event \<Rightarrow> bool" where
  "is_write (EPost _ _) = True"
| "is_write (EPatch _ _ _) = True"
| "is_write (EDelete _ _ _ _) = True"
| "is_write _ = False"

fun is_delete :: "event \<Rightarrow> bool" where
  "is_delete (EDelete _ _ _ _) = True"
| "is_delete _ = False"

text \<open>
  Later calls of \<open>getCurrentRequestAffectedIds\<close> in one request: before each of them the
  rest of the request does something to the world.
\<close>

fun later_calls ::
  "(hookargs \<Rightarrow> 's \<Rightarrow> err + jsval list) \<Rightarrow> ('s world \<Rightarrow> 's world) list \<Rightarrow> hookargs \<Rightarrow> 's world
     \<Rightarrow> (err + jsval list) list \<times> hookargs \<times> 's world" where
  "later_calls g [] args w = ([], args, w)"
| "later_calls g (f # fs) args w =
     (case getCurrentRequestAffectedIds g args (f w) of
        (p, args', w') \<Rightarrow>
          (case later_calls g fs args' w' of
             (ps, args'', w'') \<Rightarrow> (p # ps, args'', w'')))"

text \<open>
  The deletes that a list of dependents declares, in order: for each entry its own
  delete, then that of its sub-dependent if it has one, each with the message that the
  exception sink receives when that delete fails.
\<close>

fun planned :: "string \<Rightarrow> dependent \<Rightarrow> (string option \<times> string \<times> string) list" where
  "planned resource (dependent, resourceIdField, None) =
     [(Some dependent, resourceIdField, dependent_message dependent resource)]"
| "planned resource (dependent, resourceIdField, Some sd) =
     [(Some dependent, resourceIdField, dependent_message dependent resource),
      (element sd 0, to_string (element sd 1), ''Error deleting '' @ to_string (element sd 0))]"

definition plan :: "string \<Rightarrow> dependent list \<Rightarrow> (string option \<times> string \<times> string) list" where
  "plan resource dependents = concat (map (planned resource) dependents)"

definition issued :: "jsval list \<Rightarrow> err option \<Rightarrow> string option \<times> string \<times> string \<Rightarrow> event" where
  "issued ids outcome step = (case step of (res, fld, msg) \<Rightarrow> EDelete res fld ids outcome)"

definition message_of :: "string option \<times> string \<times> string \<Rightarrow> string" where
  "message_of step = (case step of (res, fld, msg) \<Rightarrow> msg)"

text \<open>
  A report to the exception sink that names a resource and its parent: some captured
  message for that error and request contains both names.
\<close>

definition reported_with_names :: "event list \<Rightarrow> err \<Rightarrow> string \<Rightarrow> string \<Rightarrow> req \<Rightarrow> bool" where
  "reported_with_names evs e name parent r =
     list_ex (\<lambda>ev. case ev of
                     ECapture e' msg r' \<Rightarrow> e' = e \<and> r' = r \<and> sublist name msg \<and> sublist parent msg
                   | _ \<Rightarrow> False) evs"

text \<open>
  What a cascade leaves in the record of calls, given the deletes it had planned: when it
  succeeds, every planned delete, in order, each resolved; when it fails with \<open>e\<close>, the
  planned deletes up to some position, each resolved, then the delete at that position,
  rejected with \<open>e\<close>, then the report of \<open>e\<close> to the exception sink with the message of
  that delete, and nothing more.
\<close>

definition cascade_trace ::
  "req \<Rightarrow> jsval list \<Rightarrow> (string option \<times> string \<times> string) list \<Rightarrow> err + unit \<Rightarrow> event list \<Rightarrow> bool" where
  "cascade_trace r ids steps res evs =
     (case res of
        Inr _ \<Rightarrow> evs = map (issued ids None) steps
      | Inl e \<Rightarrow>
          list_ex (\<lambda>k. evs = map (issued ids None) (take k steps)
                          @ [issued ids (Some e) (steps ! k), ECapture e (message_of (steps ! k)) r])
            [0..<length steps])"

section \<open>A store in memory\<close>

text \<open>
  A small store for running the helpers: rows tagged with their resource, an equality
  filter, ids numbered by insertion, and a list of resources whose deletes fail.
\<close>

type_synonym table = "(string \<times> fields) list"

definition matches :: "fields \<Rightarrow> fields \<Rightarrow> bool" where
  "matches flt row = list_all (\<lambda>(k, v). get_prop row k = v) flt"

definition memory_backend :: "string list \<Rightarrow> table backend" where
  "memory_backend failing =
     \<lparr>be_get = (\<lambda>api resource flt sel s.
                 Inr (map snd (filter (\<lambda>(r, row). r = resource \<and> matches flt row) s))),
      be_post = (\<lambda>api resource body s.
                 (Inr [(''id'', JNum (int (length s)))],
                  s @ [(resource, AList.update ''id'' (JNum (int (length s))) body)])),
      be_patch = (\<lambda>api resource i body s.
                 (Inr (),
                  map (\<lambda>(r, row). if r = resource \<and> get_prop row ''id'' = i
                                   then (r, assign row body) else (r, row)) s)),
      be_delete = (\<lambda>api resource fld ids s.
                 if to_string resource \<in> set failing
                 then (Inl (Error (''cannot delete '' @ to_string resource)), s)
                 else (Inr (),
                       filter (\<lambda>(r, row). \<not> (Some r = resource \<and> get_prop row fld \<in> set ids)) s))\<rparr>"

definition world0 :: "table \<Rightarrow> fields list \<Rightarrow> table world" where
  "world0 s objs =
     \<lparr>log = [], store = s, heap = (\<lambda>a. if a < length objs then objs ! a else []),
      heap_next = length objs\<rparr>"

definition args0 :: hookargs where
  "args0 = \<lparr>a_api = clone resinApi (Req 1) (Some 0), a_req = Req 1,
            a_request = \<lparr>custom_affectedIds = None\<rparr>\<rparr>"

text \<open>A resolver of affected ids that answers with the ids it is given.\<close>

definition fixed_ids :: "err + jsval list \<Rightarrow> hookargs \<Rightarrow> table \<Rightarrow> err + jsval list" where
  "fixed_ids p args s = p"

text \<open>The dependents of \<open>device\<close> in the spec's example of a cascade.\<close>

definition device_dependents :: "dependent list" where
  "device_dependents =
     [(''device_config_variable'', ''device_id'', None),
      (''device_environment_variable'', ''device_id'', Some [''image_install'', ''device_id''])]"

text \<open>A stand-in for \<open>JSON.stringify\<close> in the examples: keys and string values.\<close>

definition demo_stringify :: "fields \<Rightarrow> string" where
  "demo_stringify flt =
     ''{'' @ concat (map (\<lambda>(k, v). k @ '':'' @ (case v of JStr s \<Rightarrow> s | _ \<Rightarrow> ''?'') @ '';'') flt) @ ''}''"

text \<open>An operation that posts twice and then settles as it is told to.\<close>

definition two_writes :: "err + unit \<Rightarrow> jsval \<Rightarrow> tx \<Rightarrow> fields \<Rightarrow> (unit, table) promise" where
  "two_writes outcome this t body =
     then_p (api_post (memory_backend []) (clone authApi Root (Some t)) ''actor'' body)
       (\<lambda>_. then_p (api_post (memory_backend []) (clone authApi Root (Some t)) ''actor'' body)
          (\<lambda>_. Pair outcome))"

definition user_filter :: fields where
  "user_filter = [(''username'', JStr ''admin''), (''role'', JStr ''guest'')]"

definition user_update :: fields where
  "user_update = [(''role'', JStr ''root'')]"



definition two_admins :: table where
  "two_admins =
     [(''user'', [(''id'', JNum 0), (''username'', JStr ''admin''), (''role'', JStr ''guest'')]),
      (''user'', [(''id'', JNum 1), (''username'', JStr ''admin''), (''role'', JStr ''guest'')])]"

section \<open>Transactions: running at once is wrapping and calling\<close>

text \<open>
  C8. For every operation and arguments, and whatever \<open>db.transaction\<close> does,
  \<open>runInTransaction(fn, ...args)\<close> is the plain call of \<open>wrapInTransaction(fn)\<close> with
  those arguments: the same result or error and the same world afterwards.
\<close>

theorem runInTransaction_is_wrap_then_call:
  "runInTransaction db fn args w = (wrapInTransaction db fn) JUndefined args w"
  by (simp add: runInTransaction_def)

section \<open>Affected ids are resolved once per request\<close>

lemma getIds_cached:
  "custom_affectedIds (a_request args) = Some p \<Longrightarrow>
   getCurrentRequestAffectedIds g args w = (p, args, w)"
  by (simp add: getCurrentRequestAffectedIds_def)

lemma getIds_stores:
  "getCurrentRequestAffectedIds g args w = (p, args', w') \<Longrightarrow>
   custom_affectedIds (a_request args') = Some p"
  by (auto simp: getCurrentRequestAffectedIds_def Let_def split: option.splits)

lemma later_calls_cached:
  "custom_affectedIds (a_request args) = Some p \<Longrightarrow>
   later_calls g fs args w = (replicate (length fs) p, args, fold (\<lambda>f. f) fs w)"
  by (induction fs arbitrary: w) (simp_all add: getIds_cached)

lemma getIds_value:
  "getCurrentRequestAffectedIds g args w = (p, args', w') \<Longrightarrow>
   (custom_affectedIds (a_request args) = None \<longrightarrow> p = g args (store w) \<and> w' = emit EResolve w)
   \<and> (\<forall>q. custom_affectedIds (a_request args) = Some q \<longrightarrow> p = q \<and> args' = args \<and> w' = w)"
  by (auto simp: getCurrentRequestAffectedIds_def Let_def split: option.splits)

lemma getIds_log:
  "getCurrentRequestAffectedIds g args w = (p, args', w') \<Longrightarrow>
   log w' = log w @ (if custom_affectedIds (a_request args) = None then [EResolve] else [])
   \<and> store w' = store w"
  by (auto simp: getCurrentRequestAffectedIds_def Let_def emit_def split: option.splits)

text \<open>
  C6. A call of \<open>getCurrentRequestAffectedIds\<close> invokes the resolver at most once and
  leaves its result on the request: with nothing stored yet, the result is what the
  resolver answers for these arguments, and the one invocation is recorded; with a result
  stored, that result is returned and nothing changes. Every later call in the request,
  whatever happened in between, returns that same result and changes nothing: the world
  after the later calls is the one the steps in between produced.
\<close>

theorem affectedIds_resolved_at_most_once:
  assumes "getCurrentRequestAffectedIds g args w = (p, args1, w1)"
  shows "length (filter (\<lambda>e. e = EResolve) (log w1)) \<le> Suc (length (filter (\<lambda>e. e = EResolve) (log w)))
       \<and> custom_affectedIds (a_request args1) = Some p
       \<and> later_calls g fs args1 w1 = (replicate (length fs) p, args1, fold (\<lambda>f. f) fs w1)
       \<and> (custom_affectedIds (a_request args) = None
            \<longrightarrow> p = g args (store w) \<and> w1 = emit EResolve w)
       \<and> (\<forall>q. custom_affectedIds (a_request args) = Some q
            \<longrightarrow> p = q \<and> args1 = args \<and> w1 = w)"
  using getIds_log[OF assms] getIds_stores[OF assms] later_calls_cached[of args1 p g fs w1]
    getIds_value[OF assms]
  by simp

theorem affectedIds_resolved_at_most_once_witness:
  "getCurrentRequestAffectedIds (fixed_ids (Inr [JNum 5])) args0 (world0 [] [])
     = (Inr [JNum 5], args0\<lparr>a_request := \<lparr>custom_affectedIds = Some (Inr [JNum 5])\<rparr>\<rparr>,
        emit EResolve (world0 [] []))
   \<and> later_calls (fixed_ids (Inr [JNum 5])) [emit EBegin, emit ECommit]
        (args0\<lparr>a_request := \<lparr>custom_affectedIds = Some (Inr [JNum 5])\<rparr>\<rparr>)
        (emit EResolve (world0 [] []))
     = ([Inr [JNum 5], Inr [JNum 5]],
        args0\<lparr>a_request := \<lparr>custom_affectedIds = Some (Inr [JNum 5])\<rparr>\<rparr>,
        emit ECommit (emit EBegin (emit EResolve (world0 [] []))))"
proof -
  have h: "getCurrentRequestAffectedIds (fixed_ids (Inr [JNum 5])) args0 (world0 [] [])
     = (Inr [JNum 5], args0\<lparr>a_request := \<lparr>custom_affectedIds = Some (Inr [JNum 5])\<rparr>\<rparr>,
        emit EResolve (world0 [] []))"
    by (simp add: getCurrentRequestAffectedIds_def fixed_ids_def args0_def Let_def)
  from affectedIds_resolved_at_most_once[OF h, of "[emit EBegin, emit ECommit]"] h
  show ?thesis by simp
qed

text \<open>
  C10. When the first resolution of a request fails, the failure is what the request
  keeps: every later call returns it, and none of them invokes the resolver.
\<close>

theorem affectedIds_failure_stays_cached:
  assumes "custom_affectedIds (a_request args) = None"
      and "g args (store w) = Inl e"
      and "getCurrentRequestAffectedIds g args w = (p, args1, w1)"
  shows "p = Inl e \<and> custom_affectedIds (a_request args1) = Some (Inl e)
       \<and> later_calls g fs args1 w1 = (replicate (length fs) (Inl e), args1, fold (\<lambda>f. f) fs w1)"
proof -
  have "p = Inl e" using assms by (simp add: getCurrentRequestAffectedIds_def Let_def)
  with getIds_stores[OF assms(3)] later_calls_cached[of args1 p g fs w1] show ?thesis by simp
qed

theorem affectedIds_failure_stays_cached_witness:
  "custom_affectedIds (a_request args0) = None
   \<and> fixed_ids (Inl (Error ''no ids'')) args0 (store (world0 [] [])) = Inl (Error ''no ids'')
   \<and> getCurrentRequestAffectedIds (fixed_ids (Inl (Error ''no ids''))) args0 (world0 [] [])
     = (Inl (Error ''no ids''),
        args0\<lparr>a_request := \<lparr>custom_affectedIds = Some (Inl (Error ''no ids''))\<rparr>\<rparr>,
        emit EResolve (world0 [] []))
   \<and> later_calls (fixed_ids (Inl (Error ''no ids''))) [emit EBegin, emit ERollback]
        (args0\<lparr>a_request := \<lparr>custom_affectedIds = Some (Inl (Error ''no ids''))\<rparr>\<rparr>)
        (emit EResolve (world0 [] []))
     = ([Inl (Error ''no ids''), Inl (Error ''no ids'')],
        args0\<lparr>a_request := \<lparr>custom_affectedIds = Some (Inl (Error ''no ids''))\<rparr>\<rparr>,
        emit ERollback (emit EBegin (emit EResolve (world0 [] []))))"
proof -
  have h1: "custom_affectedIds (a_request args0) = None" by (simp add: args0_def)
  have h2: "fixed_ids (Inl (Error ''no ids'')) args0 (store (world0 [] [])) = Inl (Error ''no ids'')"
    by (simp add: fixed_ids_def)
  have h3: "getCurrentRequestAffectedIds (fixed_ids (Inl (Error ''no ids''))) args0 (world0 [] [])
     = (Inl (Error ''no ids''),
        args0\<lparr>a_request := \<lparr>custom_affectedIds = Some (Inl (Error ''no ids''))\<rparr>\<rparr>,
        emit EResolve (world0 [] []))"
    by (simp add: getCurrentRequestAffectedIds_def fixed_ids_def args0_def Let_def)
  from affectedIds_failure_stays_cached[OF h1 h2 h3, of "[emit EBegin, emit ERollback]"] h1 h2 h3
  show ?thesis by simp
qed

section \<open>Cascading deletes\<close>

text \<open>
  C7. When the affected ids resolve to the empty list, the PRERUN hook succeeds at once:
  it issues no delete, and the store is untouched.
\<close>

theorem empty_affected_set_deletes_nothing:
  assumes "getCurrentRequestAffectedIds g args w = (Inr [], args1, w1)"
  shows "addDeleteHookForDependents g be resource dependents args w = (Inr (), args1, w1)
       \<and> filter is_delete (log w1) = filter is_delete (log w) \<and> store w1 = store w"
  using assms getIds_log[OF assms]
  by (simp add: addDeleteHookForDependents_def then_p_def resolve_p_def)

theorem empty_affected_set_deletes_nothing_witness:
  "getCurrentRequestAffectedIds (fixed_ids (Inr [])) args0 (world0 [(''device_config_variable'', [(''id'', JNum 1), (''device_id'', JNum 5)])] [])
     = (Inr [], args0\<lparr>a_request := \<lparr>custom_affectedIds = Some (Inr [])\<rparr>\<rparr>,
        emit EResolve (world0 [(''device_config_variable'', [(''id'', JNum 1), (''device_id'', JNum 5)])] []))
   \<and> addDeleteHookForDependents (fixed_ids (Inr [])) (memory_backend []) ''device'' device_dependents
        args0 (world0 [(''device_config_variable'', [(''id'', JNum 1), (''device_id'', JNum 5)])] [])
     = (Inr (), args0\<lparr>a_request := \<lparr>custom_affectedIds = Some (Inr [])\<rparr>\<rparr>,
        emit EResolve (world0 [(''device_config_variable'', [(''id'', JNum 1), (''device_id'', JNum 5)])] []))"
proof -
  let ?w = "world0 [(''device_config_variable'', [(''id'', JNum 1), (''device_id'', JNum 5)])] []"
  have h: "getCurrentRequestAffectedIds (fixed_ids (Inr [])) args0 ?w
     = (Inr [], args0\<lparr>a_request := \<lparr>custom_affectedIds = Some (Inr [])\<rparr>\<rparr>, emit EResolve ?w)"
    by (simp add: getCurrentRequestAffectedIds_def fixed_ids_def args0_def Let_def)
  from empty_affected_set_deletes_nothing[OF h, of "memory_backend []" "''device''" device_dependents] h
  show ?thesis by simp
qed

lemma cascade_trace_fail_iff:
  "cascade_trace r ids steps (Inl e) evs \<longleftrightarrow>
     (\<exists>k<length steps. evs = map (issued ids None) (take k steps)
                          @ [issued ids (Some e) (steps ! k), ECapture e (message_of (steps ! k)) r])"
  by (auto simp: cascade_trace_def list_ex_iff)

lemma cascade_trace_ok_iff:
  "cascade_trace r ids steps (Inr u) evs \<longleftrightarrow> evs = map (issued ids None) steps"
  by (simp add: cascade_trace_def)

lemma cascade_trace_extend:
  assumes "cascade_trace r ids steps1 (Inl e) evs"
  shows "cascade_trace r ids (steps1 @ steps2) (Inl e) evs"
proof -
  from assms obtain k where k: "k < length steps1"
    and evs: "evs = map (issued ids None) (take k steps1)
                @ [issued ids (Some e) (steps1 ! k), ECapture e (message_of (steps1 ! k)) r]"
    by (auto simp: cascade_trace_fail_iff)
  from k have "k < length (steps1 @ steps2)" by simp
  moreover from k evs have "evs = map (issued ids None) (take k (steps1 @ steps2))
                @ [issued ids (Some e) ((steps1 @ steps2) ! k), ECapture e (message_of ((steps1 @ steps2) ! k)) r]"
    by (simp add: nth_append)
  ultimately show ?thesis unfolding cascade_trace_fail_iff by blast
qed

lemma cascade_trace_append:
  assumes "cascade_trace r ids steps1 (Inr ()) evs1"
      and "cascade_trace r ids steps2 res evs2"
  shows "cascade_trace r ids (steps1 @ steps2) res (evs1 @ evs2)"
proof (cases res)
  case (Inr u)
  with assms show ?thesis by (simp add: cascade_trace_ok_iff)
next
  case (Inl e)
  with assms(2) obtain k where k: "k < length steps2"
    and evs: "evs2 = map (issued ids None) (take k steps2)
                @ [issued ids (Some e) (steps2 ! k), ECapture e (message_of (steps2 ! k)) r]"
    by (auto simp: cascade_trace_fail_iff)
  let ?k = "length steps1 + k"
  have "?k < length (steps1 @ steps2)" using k by simp
  moreover have "evs1 @ evs2 = map (issued ids None) (take ?k (steps1 @ steps2))
                @ [issued ids (Some e) ((steps1 @ steps2) ! ?k), ECapture e (message_of ((steps1 @ steps2) ! ?k)) r]"
    using assms(1) evs by (simp add: cascade_trace_ok_iff nth_append)
  ultimately show ?thesis unfolding Inl cascade_trace_fail_iff by blast
qed

lemma api_delete_result:
  "api_delete be api res fld ids w = (x, w') \<Longrightarrow>
   log w' = log w @ [EDelete res fld ids (failure x)]"
  by (auto simp: api_delete_def emit_def split: prod.splits)

lemma deleteDependent_trace:
  assumes "deleteDependent be resource api r ids d w = (res, w')"
  shows "\<exists>evs. log w' = log w @ evs \<and> cascade_trace r ids (planned resource d) res evs"
proof -
  obtain dep fld sub where d: "d = (dep, fld, sub)" by (cases d)
  obtain x1 w1 where s1: "api_delete be api (Some dep) fld ids w = (x1, w1)" by force
  note l1 = api_delete_result[OF s1]
  show ?thesis
  proof (cases x1)
    case (Inl e)
    with assms d s1 l1 show ?thesis
      by (cases sub)
         (auto simp: deleteDependent_def then_p_def tapCatch_def captureException_def emit_def
            cascade_trace_def issued_def message_of_def failure_def)
  next
    case (Inr u)
    show ?thesis
    proof (cases sub)
      case None
      with assms d s1 l1 Inr show ?thesis
        by (auto simp: deleteDependent_def then_p_def tapCatch_def resolve_p_def
            cascade_trace_def issued_def failure_def)
    next
      case (Some sd)
      obtain x2 w2 where s2:
        "api_delete be api (element sd 0) (to_string (element sd 1)) ids w1 = (x2, w2)" by force
      note l2 = api_delete_result[OF s2]
      from assms d s1 s2 l1 l2 Inr Some show ?thesis
        by (cases x2)
           (auto simp: deleteDependent_def then_p_def tapCatch_def resolve_p_def return_p_def
              captureException_def emit_def Let_def
              cascade_trace_def issued_def message_of_def failure_def)
    qed
  qed
qed

lemma mapSeries_trace:
  "mapSeries ds (deleteDependent be resource api r ids) w = (res, w') \<Longrightarrow>
   \<exists>evs. log w' = log w @ evs \<and>
     cascade_trace r ids (plan resource ds) (map_sum (\<lambda>e. e) (\<lambda>_. ()) res) evs"
proof (induction ds arbitrary: w res w')
  case Nil
  then show ?case by (auto simp: plan_def cascade_trace_def)
next
  case (Cons d ds)
  obtain x1 w1 where s1: "deleteDependent be resource api r ids d w = (x1, w1)" by force
  from deleteDependent_trace[OF s1] obtain evs1 where
    e1: "log w1 = log w @ evs1" and c1: "cascade_trace r ids (planned resource d) x1 evs1" by blast
  have pl: "plan resource (d # ds) = planned resource d @ plan resource ds"
    by (simp add: plan_def)
  show ?case
  proof (cases x1)
    case (Inl e)
    with Cons.prems s1 have "res = Inl e" "w' = w1" by auto
    with e1 c1 Inl cascade_trace_extend[of r ids "planned resource d" e evs1 "plan resource ds"] pl
    show ?thesis by auto
  next
    case (Inr u)
    obtain x2 w2 where s2: "mapSeries ds (deleteDependent be resource api r ids) w1 = (x2, w2)" by force
    from Cons.IH[OF s2] obtain evs2 where
      e2: "log w2 = log w1 @ evs2"
      and c2: "cascade_trace r ids (plan resource ds) (map_sum (\<lambda>e. e) (\<lambda>_. ()) x2) evs2" by blast
    from Cons.prems s1 s2 Inr have w': "w' = w2" and res: "map_sum (\<lambda>e. e) (\<lambda>_. ()) res = map_sum (\<lambda>e. e) (\<lambda>_. ()) x2"
      by (auto split: sum.splits)
    from c1 Inr have "cascade_trace r ids (planned resource d) (Inr ()) evs1" by simp
    from cascade_trace_append[OF this c2] e1 e2 w' res pl show ?thesis by auto
  qed
qed


lemma dependent_message_names:
  "sublist dependent (dependent_message dependent resource) \<and>
   sublist resource (dependent_message dependent resource)"
proof -
  have "dependent_message dependent resource =
          (''Error deleting resource '' @ [CHR 0x27]) @ dependent
            @ ([CHR 0x27] @ '' before deleting '' @ [CHR 0x27] @ resource @ [CHR 0x27] @ '' '')"
    by (simp add: dependent_message_def)
  then have a: "sublist dependent (dependent_message dependent resource)"
    unfolding sublist_def by blast
  have "dependent_message dependent resource =
          (''Error deleting resource '' @ [CHR 0x27] @ dependent @ [CHR 0x27] @ '' before deleting ''
             @ [CHR 0x27]) @ resource @ ([CHR 0x27] @ '' '')"
    by (simp add: dependent_message_def)
  then have b: "sublist resource (dependent_message dependent resource)"
    unfolding sublist_def by blast
  from a b show ?thesis by simp
qed

lemmas hook_defs =
  addDeleteHookForDependents_def getCurrentRequestAffectedIds_def fixed_ids_def memory_backend_def
  device_dependents_def args0_def world0_def then_p_def resolve_p_def return_p_def
  deleteDependent_def tapCatch_def api_delete_def emit_def captureException_def element_def
  to_string_def failure_def Let_def get_prop_def clone_def resinApi_def

text \<open>
  C1, as the code has it. With a non-empty list of affected ids, the PRERUN hook issues
  the deletes that the dependents declare in exactly the declared order, one after the
  other, the delete of a sub-dependent directly after the resolved delete of its parent
  dependent. When all of them resolve, the hook resolves and nothing is reported. When one
  is rejected, it is the last delete issued: the error goes to the exception sink with the
  request and the hook is rejected with that same error. The report of a dependent's own
  delete carries the message that names the dependent and the primary resource; the
  report of a sub-dependent's delete carries \<open>Error deleting\<close> and the sub-dependent's
  resource only.
\<close>

theorem cascade_in_declared_order:
  assumes "getCurrentRequestAffectedIds g args w = (Inr ids, args1, w1)"
      and "ids \<noteq> []"
      and "addDeleteHookForDependents g be resource dependents args w = (res, args2, w2)"
  shows "args2 = args1
       \<and> log w2 = log w1 @ drop (length (log w1)) (log w2)
       \<and> cascade_trace (a_req args) ids (plan resource dependents) res
            (drop (length (log w1)) (log w2))
       \<and> sublist dependent (dependent_message dependent resource)
       \<and> sublist resource (dependent_message dependent resource)"
proof -
  obtain x w' where m:
    "mapSeries dependents (deleteDependent be resource (a_api args) (a_req args) ids) w1 = (x, w')"
    by force
  from mapSeries_trace[OF m] obtain evs where
    e: "log w' = log w1 @ evs"
    and c: "cascade_trace (a_req args) ids (plan resource dependents) (map_sum (\<lambda>e. e) (\<lambda>_. ()) x) evs"
    by blast
  from assms m have "args2 = args1" "w2 = w'" "res = map_sum (\<lambda>e. e) (\<lambda>_. ()) x"
    by (auto simp: addDeleteHookForDependents_def then_p_def resolve_p_def return_p_def Let_def
          split: sum.splits)
  with e c dependent_message_names[of dependent resource] show ?thesis by simp
qed

theorem cascade_in_declared_order_witness:
  "getCurrentRequestAffectedIds (fixed_ids (Inr [JNum 5])) args0 (world0 [] [])
     = (Inr [JNum 5], args0\<lparr>a_request := \<lparr>custom_affectedIds = Some (Inr [JNum 5])\<rparr>\<rparr>,
        emit EResolve (world0 [] []))
   \<and> [JNum 5] \<noteq> []
   \<and> addDeleteHookForDependents (fixed_ids (Inr [JNum 5])) (memory_backend [])
            ''device'' device_dependents args0 (world0 [] [])
     = (Inr (), args0\<lparr>a_request := \<lparr>custom_affectedIds = Some (Inr [JNum 5])\<rparr>\<rparr>,
        \<lparr>log = [EResolve,
                EDelete (Some ''device_config_variable'') ''device_id'' [JNum 5] None,
                EDelete (Some ''device_environment_variable'') ''device_id'' [JNum 5] None,
                EDelete (Some ''image_install'') ''device_id'' [JNum 5] None],
         store = [], heap = (\<lambda>a. []), heap_next = 0\<rparr>)
   \<and> cascade_trace (Req 1) [JNum 5] (plan ''device'' device_dependents) (Inr ())
        [EDelete (Some ''device_config_variable'') ''device_id'' [JNum 5] None,
         EDelete (Some ''device_environment_variable'') ''device_id'' [JNum 5] None,
         EDelete (Some ''image_install'') ''device_id'' [JNum 5] None]"
proof -
  let ?w = "world0 [] [] :: table world"
  let ?a = "args0\<lparr>a_request := \<lparr>custom_affectedIds = Some (Inr [JNum 5])\<rparr>\<rparr>"
  let ?end = "\<lparr>log = [EResolve,
                EDelete (Some ''device_config_variable'') ''device_id'' [JNum 5] None,
                EDelete (Some ''device_environment_variable'') ''device_id'' [JNum 5] None,
                EDelete (Some ''image_install'') ''device_id'' [JNum 5] None],
         store = [], heap = (\<lambda>a. []), heap_next = 0\<rparr> :: table world"
  have h1: "getCurrentRequestAffectedIds (fixed_ids (Inr [JNum 5])) args0 ?w
     = (Inr [JNum 5], ?a, emit EResolve ?w)"
    by (simp add: getCurrentRequestAffectedIds_def fixed_ids_def args0_def Let_def)
  have h2: "[JNum 5] \<noteq> []" by simp
  have h3: "addDeleteHookForDependents (fixed_ids (Inr [JNum 5])) (memory_backend [])
            ''device'' device_dependents args0 ?w = (Inr (), ?a, ?end)"
    by (simp add: hook_defs)
  note T = cascade_in_declared_order[where g = "fixed_ids (Inr [JNum 5])" and args = args0
      and w = ?w and be = "memory_backend []" and resource = "''device''"
      and dependents = device_dependents and dependent = "''device_config_variable''",
      OF h1 h2 h3]
  note c = T[THEN conjunct2, THEN conjunct2, THEN conjunct1]
  have l: "drop (length (log (emit EResolve ?w))) (log ?end)
           = [EDelete (Some ''device_config_variable'') ''device_id'' [JNum 5] None,
              EDelete (Some ''device_environment_variable'') ''device_id'' [JNum 5] None,
              EDelete (Some ''image_install'') ''device_id'' [JNum 5] None]"
    by (simp add: emit_def world0_def)
  have r: "a_req args0 = Req 1" by (simp add: args0_def)
  from c have c': "cascade_trace (Req 1) [JNum 5] (plan ''device'' device_dependents) (Inr ())
        [EDelete (Some ''device_config_variable'') ''device_id'' [JNum 5] None,
         EDelete (Some ''device_environment_variable'') ''device_id'' [JNum 5] None,
         EDelete (Some ''image_install'') ''device_id'' [JNum 5] None]"
    by (simp only: l r)
  show ?thesis using h1 h2 h3 c' by (intro conjI) assumption+
qed

text \<open>
  The claim as stated asks for the parent's name in every report. Deleting device 5 with
  \<open>image_install\<close> failing: the report is \<open>Error deleting image_install\<close>, which names
  neither \<open>device\<close> nor \<open>device_environment_variable\<close>.
\<close>

theorem cascade_report_counterexample:
  "fst (addDeleteHookForDependents (fixed_ids (Inr [JNum 5])) (memory_backend [''image_install''])
          ''device'' device_dependents args0 (world0 [] []))
     = Inl (Error ''cannot delete image_install'')
   \<and> log (snd (snd (addDeleteHookForDependents (fixed_ids (Inr [JNum 5]))
          (memory_backend [''image_install'']) ''device'' device_dependents args0 (world0 [] []))))
     = [EResolve,
        EDelete (Some ''device_config_variable'') ''device_id'' [JNum 5] None,
        EDelete (Some ''device_environment_variable'') ''device_id'' [JNum 5] None,
        EDelete (Some ''image_install'') ''device_id'' [JNum 5]
          (Some (Error ''cannot delete image_install'')),
        ECapture (Error ''cannot delete image_install'') ''Error deleting image_install'' (Req 1)]
   \<and> \<not> reported_with_names
         (log (snd (snd (addDeleteHookForDependents (fixed_ids (Inr [JNum 5]))
            (memory_backend [''image_install'']) ''device'' device_dependents args0 (world0 [] [])))))
         (Error ''cannot delete image_install'') ''image_install'' ''device'' (Req 1)
   \<and> \<not> reported_with_names
         (log (snd (snd (addDeleteHookForDependents (fixed_ids (Inr [JNum 5]))
            (memory_backend [''image_install'']) ''device'' device_dependents args0 (world0 [] [])))))
         (Error ''cannot delete image_install'') ''image_install'' ''device_environment_variable''
         (Req 1)"
proof -
  let ?X = "addDeleteHookForDependents (fixed_ids (Inr [JNum 5])) (memory_backend [''image_install''])
          ''device'' device_dependents args0 (world0 [] [])"
  let ?evs = "[EResolve,
        EDelete (Some ''device_config_variable'') ''device_id'' [JNum 5] None,
        EDelete (Some ''device_environment_variable'') ''device_id'' [JNum 5] None,
        EDelete (Some ''image_install'') ''device_id'' [JNum 5]
          (Some (Error ''cannot delete image_install'')),
        ECapture (Error ''cannot delete image_install'') ''Error deleting image_install'' (Req 1)]"
  have x: "?X = (Inl (Error ''cannot delete image_install''),
                 args0\<lparr>a_request := \<lparr>custom_affectedIds = Some (Inr [JNum 5])\<rparr>\<rparr>,
                 \<lparr>log = ?evs, store = [], heap = (\<lambda>a. []), heap_next = 0\<rparr>)"
    by (simp add: hook_defs)
  have a: "fst ?X = Inl (Error ''cannot delete image_install'')" by (simp only: x fst_conv)
  have b: "log (snd (snd ?X)) = ?evs" by (simp only: x snd_conv) simp
  have c: "\<not> reported_with_names ?evs (Error ''cannot delete image_install'')
               ''image_install'' ''device'' (Req 1)"
    by (simp add: reported_with_names_def sublist_code)
  have d: "\<not> reported_with_names ?evs (Error ''cannot delete image_install'')
               ''image_install'' ''device_environment_variable'' (Req 1)"
    by (simp add: reported_with_names_def sublist_code)
  have c': "\<not> reported_with_names (log (snd (snd ?X))) (Error ''cannot delete image_install'')
               ''image_install'' ''device'' (Req 1)"
    unfolding b by (rule c)
  have d': "\<not> reported_with_names (log (snd (snd ?X))) (Error ''cannot delete image_install'')
               ''image_install'' ''device_environment_variable'' (Req 1)"
    unfolding b by (rule d)
  show ?thesis using a b c' d' by (intro conjI) assumption+
qed

section \<open>getOrInsertId\<close>

lemma map_of_insert_index:
  "k \<notin> fst ` set obj \<Longrightarrow> map_of (insert_index i k v obj) = (map_of obj)(k \<mapsto> v)"
  by (induction obj) (auto simp: fun_eq_iff split: option.splits)

lemma map_of_snoc:
  "k \<notin> fst ` set obj \<Longrightarrow> map_of (obj @ [(k, v)]) = (map_of obj)(k \<mapsto> v)"
  by (induction obj) (auto simp: fun_eq_iff)

lemma map_of_put: "map_of (put k v obj) = (map_of obj)(k \<mapsto> v)"
proof (cases "has_key obj k")
  case True
  then show ?thesis by (simp add: put_def update_conv')
next
  case False
  then have "k \<notin> fst ` set obj" by (simp add: has_key_def map_of_eq_None_iff)
  with False show ?thesis
    by (simp add: put_def map_of_insert_index map_of_snoc del: map_of_append split: option.splits)
qed

lemmas put_eval = put_def has_key_def index_of_def digit_of_def number_of_def

lemma map_of_assign:
  "map_of (assign target source) k =
     (case map_of (rev source) k of Some v \<Rightarrow> Some v | None \<Rightarrow> map_of target k)"
  unfolding assign_def
  by (induction source arbitrary: target)
     (auto simp: map_of_put map_add_def split: option.splits)

lemma has_key_assign:
  "has_key (assign target source) k \<longleftrightarrow> has_key target k \<or> has_key source k"
proof -
  have "map_of (rev source) k = None \<longleftrightarrow> map_of source k = None"
    by (simp add: map_of_eq_None_iff)
  then show ?thesis
    by (auto simp: has_key_def map_of_assign split: option.splits)
qed

lemma api_get_run:
  "api_get be api resource flt sel w = (x, w') \<Longrightarrow>
   x = be_get be api resource flt sel (store w) \<and> w' = emit (EGet resource flt sel) w"
  by (auto simp: api_get_def)

lemma priv_getOrInsertId_run:
  assumes "priv_getOrInsertId be api resource body t w = (res, w')"
      and "be_get be (clone api Root t) resource body (SelectStr ''id'') (store w) = Inr rows"
  shows "(rows = [] \<longrightarrow>
            log w' = log w @ [EGet resource body (SelectStr ''id''), EPost resource body]
          \<and> res = map_sum (\<lambda>e. e) (\<lambda>idObj. assign (assign [] idObj) body)
                    (fst (be_post be (clone api Root t) resource body (store w)))
          \<and> store w' = snd (be_post be (clone api Root t) resource body (store w)))
       \<and> (rows \<noteq> [] \<longrightarrow>
            log w' = log w @ [EGet resource body (SelectStr ''id'')]
          \<and> res = Inr (hd rows) \<and> store w' = store w)"
  using assms
  by (auto simp: priv_getOrInsertId_def Let_def then_p_def api_get_def api_post_def resolve_p_def
        emit_def split: sum.splits prod.splits)

text \<open>
  C4. \<open>getOrInsertId\<close> queries the resource with the body as filter, selecting \<open>id\<close>.
  When no row matches it posts the body and returns the posted id object with the body
  assigned over it; when rows match it returns the first of them and posts nothing.
  Provided the rows of the store and the result of its post carry an \<open>id\<close>, the object
  returned has an \<open>id\<close>.
\<close>

theorem getOrInsertId_returns_id:
  assumes "getOrInsertId be resource body t w = (res, w')"
      and "be_get be (clone authApi Root t) resource body (SelectStr ''id'') (store w) = Inr rows"
  shows "(rows = [] \<longrightarrow>
            log w' = log w @ [EGet resource body (SelectStr ''id''), EPost resource body]
          \<and> res = map_sum (\<lambda>e. e) (\<lambda>idObj. assign (assign [] idObj) body)
                    (fst (be_post be (clone authApi Root t) resource body (store w)))
          \<and> store w' = snd (be_post be (clone authApi Root t) resource body (store w)))
       \<and> (rows \<noteq> [] \<longrightarrow>
            log w' = log w @ [EGet resource body (SelectStr ''id'')]
          \<and> res = Inr (hd rows) \<and> store w' = store w)
       \<and> ((\<forall>row \<in> set rows. has_key row ''id'')
            \<and> (\<forall>idObj. fst (be_post be (clone authApi Root t) resource body (store w)) = Inr idObj
                  \<longrightarrow> has_key idObj ''id'')
          \<longrightarrow> (\<forall>obj. res = Inr obj \<longrightarrow> has_key obj ''id''))"
proof -
  from assms have run: "priv_getOrInsertId be authApi resource body t w = (res, w')"
    by (simp add: getOrInsertId_def)
  note r = priv_getOrInsertId_run[OF run assms(2)]
  have "has_key obj ''id''"
    if ids: "\<forall>row \<in> set rows. has_key row ''id''"
      and post: "\<forall>idObj. fst (be_post be (clone authApi Root t) resource body (store w)) = Inr idObj
                  \<longrightarrow> has_key idObj ''id''"
      and obj: "res = Inr obj" for obj
  proof (cases rows)
    case Nil
    with r obj obtain idObj where
      "fst (be_post be (clone authApi Root t) resource body (store w)) = Inr idObj"
      "obj = assign (assign [] idObj) body"
      by (cases "fst (be_post be (clone authApi Root t) resource body (store w))") auto
    with post show ?thesis by (simp add: has_key_assign)
  next
    case (Cons row rest)
    with r obj ids show ?thesis by auto
  qed
  with r show ?thesis by blast
qed

theorem getOrInsertId_returns_id_witness:
  "be_get (memory_backend []) (clone authApi Root None) ''user'' user_update (SelectStr ''id'')
        (store (world0 [] [])) = Inr []
   \<and> getOrInsertId (memory_backend []) ''user'' user_update None (world0 [] [])
     = (Inr [(''id'', JNum 0), (''role'', JStr ''root'')],
        \<lparr>log = [EGet ''user'' user_update (SelectStr ''id''), EPost ''user'' user_update],
         store = [(''user'', [(''role'', JStr ''root''), (''id'', JNum 0)])],
         heap = (\<lambda>a. []), heap_next = 0\<rparr>)
   \<and> has_key [(''id'', JNum 0), (''role'', JStr ''root'')] ''id''"
proof -
  let ?w = "world0 [] []"
  let ?X = "getOrInsertId (memory_backend []) ''user'' user_update None ?w"
  have h1: "?X = (Inr [(''id'', JNum 0), (''role'', JStr ''root'')],
        \<lparr>log = [EGet ''user'' user_update (SelectStr ''id''), EPost ''user'' user_update],
         store = [(''user'', [(''role'', JStr ''root''), (''id'', JNum 0)])],
         heap = (\<lambda>a. []), heap_next = 0\<rparr>)"
    by (simp add: getOrInsertId_def priv_getOrInsertId_def then_p_def api_get_def api_post_def
          resolve_p_def memory_backend_def world0_def emit_def assign_def clone_def authApi_def
          Let_def user_update_def put_eval)
  have h2: "be_get (memory_backend []) (clone authApi Root None) ''user'' user_update (SelectStr ''id'')
        (store ?w) = Inr []"
    by (simp add: memory_backend_def world0_def)
  have h3: "\<forall>idObj. fst (be_post (memory_backend []) (clone authApi Root None) ''user'' user_update
                       (store ?w)) = Inr idObj \<longrightarrow> has_key idObj ''id''"
    by (auto simp: memory_backend_def has_key_def)
  from getOrInsertId_returns_id[OF h1 h2] h1 h2 h3
  show ?thesis by simp
qed

section \<open>updateOrInsert\<close>







lemma priv_updateOrInsert_none:
  assumes "priv_updateOrInsert S be api resource fa ua t w = (res, w')"
      and "be_get be (clone api Root t) resource (heap w fa) (SelectList [''id'']) (store w) = Inr []"
  shows "log w' = log w @ [EGet resource (heap w fa) (SelectList [''id'']),
                           EPost resource (merge (heap w fa) (if ua = heap_next w then heap w fa else heap w ua))]
       \<and> (res, store w') = be_post be (clone api Root t) resource
                              (merge (heap w fa) (if ua = heap_next w then heap w fa else heap w ua)) (store w)
       \<and> heap w' = (heap w)(heap_next w := merge (heap w fa) (if ua = heap_next w then heap w fa else heap w ua))
       \<and> heap_next w' = Suc (heap_next w)"
  using assms
  by (auto simp: priv_updateOrInsert_def Let_def then_p_def api_get_def api_post_def
        cloneDeep_def merge_at_def emit_def split: prod.splits)

lemma priv_updateOrInsert_one:
  assumes "priv_updateOrInsert S be api resource fa ua t w = (res, w')"
      and "be_get be (clone api Root t) resource (heap w fa) (SelectList [''id'']) (store w) = Inr [row]"
  shows "log w' = log w @ [EGet resource (heap w fa) (SelectList [''id'']),
                           EPatch resource (get_prop row ''id'') (heap w ua)]
       \<and> res = map_sum (\<lambda>e. e) (\<lambda>_. row)
                  (fst (be_patch be (clone api Root t) resource (get_prop row ''id'') (heap w ua) (store w)))
       \<and> store w' = snd (be_patch be (clone api Root t) resource (get_prop row ''id'') (heap w ua) (store w))
       \<and> heap w' = heap w \<and> heap_next w' = heap_next w"
  using assms
  by (auto simp: priv_updateOrInsert_def Let_def then_p_def api_get_def api_patch_def
        return_p_def resolve_p_def emit_def split: prod.splits sum.splits)

lemma priv_updateOrInsert_many:
  assumes "priv_updateOrInsert S be api resource fa ua t w = (res, w')"
      and "be_get be (clone api Root t) resource (heap w fa) (SelectList [''id'']) (store w) = Inr rows"
      and "length rows > 1"
  shows "w' = emit (EGet resource (heap w fa) (SelectList [''id''])) w
       \<and> res = Inl (Error (not_unique_message S resource (heap w fa)))"
proof -
  from assms(3) have "rows \<noteq> []" by auto
  with assms show ?thesis
  by (auto simp: priv_updateOrInsert_def Let_def then_p_def api_get_def reject_p_def emit_def)
qed

lemma priv_updateOrInsert_get_fails:
  assumes "priv_updateOrInsert S be api resource fa ua t w = (res, w')"
      and "be_get be (clone api Root t) resource (heap w fa) (SelectList [''id'']) (store w) = Inl e"
  shows "w' = emit (EGet resource (heap w fa) (SelectList [''id''])) w \<and> res = Inl e"
  using assms
  by (auto simp: priv_updateOrInsert_def Let_def then_p_def api_get_def)

lemma rows_cases:
  obtains "rows = []" | row where "rows = [row]" | "length rows > 1"
  by (cases rows; cases "tl rows") auto


lemma not_unique_message_names:
  "sublist resource (not_unique_message S resource flt) \<and>
   sublist (S flt) (not_unique_message S resource flt)"
proof -
  have "not_unique_message S resource flt =
          (''updateOrInsert filter not unique for '' @ [CHR 0x27]) @ resource
            @ ([CHR 0x27] @ '': '' @ [CHR 0x27] @ S flt @ [CHR 0x27])"
    by (simp add: not_unique_message_def)
  then have a: "sublist resource (not_unique_message S resource flt)"
    unfolding sublist_def by blast
  have "not_unique_message S resource flt =
          (''updateOrInsert filter not unique for '' @ [CHR 0x27] @ resource @ [CHR 0x27] @ '': ''
             @ [CHR 0x27]) @ S flt @ [CHR 0x27]"
    by (simp add: not_unique_message_def)
  then have b: "sublist (S flt) (not_unique_message S resource flt)"
    unfolding sublist_def by blast
  from a b show ?thesis by simp
qed




text \<open>
  C3. When the query returns more than one row, \<open>updateOrInsert\<close> is rejected with the
  error whose message names the resource and the stringified filter, and nothing but the
  query was issued: store and heap are as before. In every case the call issues at most
  one write.
\<close>

theorem updateOrInsert_not_unique_and_one_write:
  assumes "updateOrInsert S be resource fa ua t w = (res, w')"
  shows "(\<forall>rows. be_get be (clone authApi Root t) resource (heap w fa) (SelectList [''id'']) (store w)
                   = Inr rows \<and> 1 < length rows
            \<longrightarrow> res = Inl (Error (not_unique_message S resource (heap w fa)))
              \<and> log w' = log w @ [EGet resource (heap w fa) (SelectList [''id''])]
              \<and> store w' = store w \<and> heap w' = heap w)
       \<and> sublist resource (not_unique_message S resource (heap w fa))
       \<and> sublist (S (heap w fa)) (not_unique_message S resource (heap w fa))
       \<and> log w' = log w @ drop (length (log w)) (log w')
       \<and> length (filter is_write (drop (length (log w)) (log w'))) \<le> 1"
proof -
  from assms have run: "priv_updateOrInsert S be authApi resource fa ua t w = (res, w')"
    by (simp add: updateOrInsert_def)
  let ?g = "be_get be (clone authApi Root t) resource (heap w fa) (SelectList [''id'']) (store w)"
  have a: "\<forall>rows. ?g = Inr rows \<and> 1 < length rows
            \<longrightarrow> res = Inl (Error (not_unique_message S resource (heap w fa)))
              \<and> log w' = log w @ [EGet resource (heap w fa) (SelectList [''id''])]
              \<and> store w' = store w \<and> heap w' = heap w"
    using priv_updateOrInsert_many[OF run] by (auto simp: emit_def)
  have b: "log w' = log w @ drop (length (log w)) (log w')
       \<and> length (filter is_write (drop (length (log w)) (log w'))) \<le> 1"
  proof (cases ?g)
    case (Inl e)
    from priv_updateOrInsert_get_fails[OF run Inl] show ?thesis by (simp add: emit_def)
  next
    case (Inr rows)
    show ?thesis
    proof (cases rows rule: rows_cases)
      case 1
      with priv_updateOrInsert_none[OF run] Inr show ?thesis by simp
    next
      case (2 row)
      with priv_updateOrInsert_one[OF run] Inr show ?thesis by simp
    next
      case 3
      with priv_updateOrInsert_many[OF run Inr] show ?thesis by (simp add: emit_def)
    qed
  qed
  from a b not_unique_message_names[of resource S "heap w fa"] show ?thesis by blast
qed

theorem updateOrInsert_not_unique_and_one_write_witness:
  "be_get (memory_backend []) (clone authApi Root None) ''user''
        (heap (world0 two_admins [user_filter, user_update]) 0) (SelectList [''id''])
        (store (world0 two_admins [user_filter, user_update])) = Inr (map snd two_admins)
   \<and> 1 < length (map snd two_admins)
   \<and> fst (updateOrInsert demo_stringify (memory_backend []) ''user'' 0 1 None
        (world0 two_admins [user_filter, user_update]))
     = Inl (Error (''updateOrInsert filter not unique for '' @ [CHR 0x27] @ ''user'' @ [CHR 0x27]
                   @ '': '' @ [CHR 0x27] @ ''{username:admin;role:guest;}'' @ [CHR 0x27]))
   \<and> log (snd (updateOrInsert demo_stringify (memory_backend []) ''user'' 0 1 None
        (world0 two_admins [user_filter, user_update])))
     = [EGet ''user'' user_filter (SelectList [''id''])]
   \<and> store (snd (updateOrInsert demo_stringify (memory_backend []) ''user'' 0 1 None
        (world0 two_admins [user_filter, user_update]))) = two_admins"
proof -
  let ?w = "world0 two_admins [user_filter, user_update]"
  let ?X = "updateOrInsert demo_stringify (memory_backend []) ''user'' 0 1 None ?w"
  have h1: "?X = (fst ?X, snd ?X)" by simp
  have h2: "be_get (memory_backend []) (clone authApi Root None) ''user''
        (heap ?w 0) (SelectList [''id'']) (store ?w) = Inr (map snd two_admins)"
    by (simp add: memory_backend_def world0_def two_admins_def user_filter_def matches_def get_prop_def)
  have h3: "1 < length (map snd two_admins)" by (simp add: two_admins_def)
  from updateOrInsert_not_unique_and_one_write[OF h1] h2 h3
  have r: "fst ?X = Inl (Error (not_unique_message demo_stringify ''user'' (heap ?w 0)))
         \<and> log (snd ?X) = log ?w @ [EGet ''user'' (heap ?w 0) (SelectList [''id''])]
         \<and> store (snd ?X) = store ?w"
    by blast
  have m: "not_unique_message demo_stringify ''user'' (heap ?w 0)
           = ''updateOrInsert filter not unique for '' @ [CHR 0x27] @ ''user'' @ [CHR 0x27]
                   @ '': '' @ [CHR 0x27] @ ''{username:admin;role:guest;}'' @ [CHR 0x27]"
    by (simp add: not_unique_message_def demo_stringify_def world0_def user_filter_def)
  have w: "log ?w = [] \<and> store ?w = two_admins \<and> heap ?w 0 = user_filter"
    by (simp add: world0_def)
  from r m w h2 h3 show ?thesis by simp
qed

text \<open>
  C9. \<open>updateOrInsert\<close> leaves the caller's filter as it was, and every other object
  allocated before the call: in the branch that inserts, the body is a new object, the
  clone of the filter with the update fields merged into it.
\<close>

theorem updateOrInsert_leaves_filter:
  assumes "updateOrInsert S be resource fa ua t w = (res, w')"
      and "fa < heap_next w"
  shows "heap w' fa = heap w fa
       \<and> (\<forall>a < heap_next w. heap w' a = heap w a)
       \<and> (be_get be (clone authApi Root t) resource (heap w fa) (SelectList [''id'']) (store w) = Inr []
            \<and> ua < heap_next w
          \<longrightarrow> heap_next w' = Suc (heap_next w)
            \<and> heap w' (heap_next w) = merge (heap w fa) (heap w ua))"
proof -
  from assms have run: "priv_updateOrInsert S be authApi resource fa ua t w = (res, w')"
    by (simp add: updateOrInsert_def)
  let ?g = "be_get be (clone authApi Root t) resource (heap w fa) (SelectList [''id'']) (store w)"
  have frame: "\<forall>a < heap_next w. heap w' a = heap w a"
  proof (cases ?g)
    case (Inl e)
    from priv_updateOrInsert_get_fails[OF run Inl] show ?thesis by (simp add: emit_def)
  next
    case (Inr rows)
    show ?thesis
    proof (cases rows rule: rows_cases)
      case 1
      with priv_updateOrInsert_none[OF run] Inr show ?thesis by simp
    next
      case (2 row)
      with priv_updateOrInsert_one[OF run] Inr show ?thesis by simp
    next
      case 3
      with priv_updateOrInsert_many[OF run Inr] show ?thesis by (simp add: emit_def)
    qed
  qed
  have new: "?g = Inr [] \<and> ua < heap_next w
          \<longrightarrow> heap_next w' = Suc (heap_next w)
            \<and> heap w' (heap_next w) = merge (heap w fa) (heap w ua)"
    using priv_updateOrInsert_none[OF run] by auto
  from frame new assms(2) show ?thesis by blast
qed

theorem updateOrInsert_leaves_filter_witness:
  "(0::nat) < heap_next (world0 [] [user_filter, user_update])
   \<and> heap (snd (updateOrInsert demo_stringify (memory_backend []) ''user'' 0 1 None
                  (world0 [] [user_filter, user_update]))) 0 = user_filter
   \<and> heap (snd (updateOrInsert demo_stringify (memory_backend []) ''user'' 0 1 None
                  (world0 [] [user_filter, user_update]))) 1 = user_update
   \<and> heap (snd (updateOrInsert demo_stringify (memory_backend []) ''user'' 0 1 None
                  (world0 [] [user_filter, user_update]))) 2
       = [(''username'', JStr ''admin''), (''role'', JStr ''root'')]"
proof -
  let ?w = "world0 [] [user_filter, user_update]"
  let ?X = "updateOrInsert demo_stringify (memory_backend []) ''user'' 0 1 None ?w"
  have h1: "?X = (fst ?X, snd ?X)" by simp
  have n: "heap_next ?w = 2" by (simp add: world0_def)
  have h2: "(0::nat) < heap_next ?w" by (simp add: n)
  have h3: "be_get (memory_backend []) (clone authApi Root None) ''user''
        (heap ?w 0) (SelectList [''id'']) (store ?w) = Inr [] \<and> 1 < heap_next ?w"
    by (simp add: memory_backend_def world0_def)
  note T = updateOrInsert_leaves_filter[OF h1 h2]
  from T have a: "heap (snd ?X) 0 = heap ?w 0" by blast
  from T have "\<forall>a < heap_next ?w. heap (snd ?X) a = heap ?w a" by blast
  then have b: "heap (snd ?X) 1 = heap ?w 1" by (simp add: n)
  from T h3 have "heap (snd ?X) (heap_next ?w) = merge (heap ?w 0) (heap ?w 1)" by blast
  then have c: "heap (snd ?X) 2 = merge (heap ?w 0) (heap ?w 1)" by (simp only: n)
  have w: "heap ?w 0 = user_filter \<and> heap ?w 1 = user_update" by (simp add: world0_def)
  have m: "merge user_filter user_update = [(''username'', JStr ''admin''), (''role'', JStr ''root'')]"
    by (simp add: user_filter_def user_update_def put_eval)
  from a b c w m h2 show ?thesis by simp
qed

section \<open>Transactions: commit and rollback\<close>

text \<open>
  C5. An operation wrapped by \<open>wrapInTransaction\<close> runs in a transaction opened for the
  call. When it resolves, the transaction is committed and the call resolves to the
  operation's result; when it rejects, the transaction is rolled back, the store is the
  one from before the call, and the call is rejected with the operation's error.
\<close>

theorem wrapInTransaction_commits_or_rolls_back:
  assumes "wrapInTransaction db_transaction fn this args w = (res, w')"
      and "fn this (length (filter (\<lambda>e. e = EBegin) (log w))) args (emit EBegin w) = (r0, w0)"
  shows "(\<forall>v. r0 = Inr v \<longrightarrow> res = Inr v \<and> w' = emit ECommit w0 \<and> store w' = store w0)
       \<and> (\<forall>e. r0 = Inl e \<longrightarrow> res = Inl e \<and> w' = emit ERollback (w0\<lparr>store := store w\<rparr>)
                \<and> store w' = store w)"
  using assms
  by (auto simp: wrapInTransaction_def db_transaction_def Let_def emit_def split: sum.splits)

theorem wrapInTransaction_commits_or_rolls_back_witness:
  "fst (two_writes (Inl (Error ''boom'')) JUndefined 0 [(''name'', JStr ''a'')] (emit EBegin (world0 [] [])))
     = Inl (Error ''boom'')
   \<and> length (store (snd (two_writes (Inl (Error ''boom'')) JUndefined 0 [(''name'', JStr ''a'')]
                           (emit EBegin (world0 [] []))))) = 2
   \<and> fst (wrapInTransaction db_transaction (two_writes (Inl (Error ''boom'')))
            JUndefined [(''name'', JStr ''a'')] (world0 [] [])) = Inl (Error ''boom'')
   \<and> store (snd (wrapInTransaction db_transaction (two_writes (Inl (Error ''boom'')))
            JUndefined [(''name'', JStr ''a'')] (world0 [] []))) = []
   \<and> log (snd (wrapInTransaction db_transaction (two_writes (Inl (Error ''boom'')))
            JUndefined [(''name'', JStr ''a'')] (world0 [] [])))
      = [EBegin, EPost ''actor'' [(''name'', JStr ''a'')], EPost ''actor'' [(''name'', JStr ''a'')],
         ERollback]"
proof -
  let ?w = "world0 [] []"
  let ?fn = "two_writes (Inl (Error ''boom''))"
  let ?X = "wrapInTransaction db_transaction ?fn JUndefined [(''name'', JStr ''a'')] ?w"
  let ?mid = "\<lparr>log = [EBegin, EPost ''actor'' [(''name'', JStr ''a'')], EPost ''actor'' [(''name'', JStr ''a'')]],
       store = [(''actor'', [(''name'', JStr ''a''), (''id'', JNum 0)]),
                (''actor'', [(''name'', JStr ''a''), (''id'', JNum 1)])],
       heap = (\<lambda>a. []), heap_next = 0\<rparr> :: table world"
  have h1: "?X = (fst ?X, snd ?X)" by simp
  have t: "length (filter (\<lambda>e. e = EBegin) (log ?w)) = 0" by (simp add: world0_def)
  have y: "?fn JUndefined 0 [(''name'', JStr ''a'')] (emit EBegin ?w) = (Inl (Error ''boom''), ?mid)"
    by (simp add: two_writes_def then_p_def api_post_def memory_backend_def emit_def world0_def)
  have h2: "?fn JUndefined (length (filter (\<lambda>e. e = EBegin) (log ?w))) [(''name'', JStr ''a'')] (emit EBegin ?w)
            = (Inl (Error ''boom''), ?mid)"
    unfolding t by (rule y)
  note T = wrapInTransaction_commits_or_rolls_back[where fn = ?fn and this = JUndefined and args = "[(''name'', JStr ''a'')]"
      and w = ?w, OF h1 h2, THEN conjunct2, rule_format, OF refl]
  note r1 = T[THEN conjunct1]
  note r2 = T[THEN conjunct2, THEN conjunct1]
  have s: "store ?w = []" by (simp add: world0_def)
  have y1: "fst (?fn JUndefined 0 [(''name'', JStr ''a'')] (emit EBegin ?w)) = Inl (Error ''boom'')"
    by (simp only: y fst_conv)
  have y2: "length (store (snd (?fn JUndefined 0 [(''name'', JStr ''a'')] (emit EBegin ?w)))) = 2"
    by (simp only: y snd_conv) simp
  have x2: "store (snd ?X) = []"
    by (simp only: r2 s) (simp add: emit_def)
  have x3: "log (snd ?X) = [EBegin, EPost ''actor'' [(''name'', JStr ''a'')],
                            EPost ''actor'' [(''name'', JStr ''a'')], ERollback]"
    by (simp only: r2) (simp add: emit_def)
  show ?thesis using y1 y2 r1 x2 x3 by (intro conjI) assumption+
qed

end
